theory Spec2Isabelle
  imports Complex_Main "HOL-Library.Multiset" "HOL-Library.Char_ord" "HOL-Library.List_Lexorder"
begin

section \<open>The expense tracker API (index.js)\<close>

text \<open>
  The program is an Express application over MongoDB. Its module state is the readiness
  flag \<open>isDbReady\<close>, the signing key \<open>JWT_SECRET\<close> and, behind the handle \<open>db\<close>, the two
  collections \<open>users\<close> and \<open>expenses\<close>. A collection is a list of documents in storage order.

  What the libraries compute is written out where the handlers depend on it:
  \<^item> an \<open>ObjectId\<close> is a natural number; a token carries the user's \<open>_id\<close> and
    \<open>new ObjectId(req.user.user_id)\<close> gives that \<open>_id\<close> back;
  \<^item> bcrypt reads 72 bytes of key from a password and is an ideal salted hash of that key:
    a hash records cost, salt and key, and \<open>bcrypt.compare\<close> accepts exactly the passwords
    with the same key (a password is read as bytes, one character of the model each);
  \<^item> a JSON Web Token is its payload together with the key that signed it: only the
    holder of the key makes a token that verifies under it;
  \<^item> JSON numbers are rationals (exact arithmetic, no rounding);
  \<^item> a request body field is absent or a string, and \<open>amount\<close> is absent, a number or a
    string; arrays, objects, booleans and null in a body are outside the model;
  \<^item> a character is one code point, and strings are compared as MongoDB compares them by
    default, lexicographically by code point.
\<close>

subsection \<open>Documents and module state\<close>

type_synonym oid = nat

datatype bcrypt_hash = Bcrypt nat string string

text \<open>A document of \<open>users\<close>: \<open>{_id, username, password}\<close>, the password held as its hash.\<close>

record user =
  uid :: oid
  uname :: string
  pwhash :: bcrypt_hash

datatype amount = ANum rat | AStr string

text \<open>A document of \<open>expenses\<close>: \<open>{_id, user_id, type, amount, description, date}\<close>.\<close>

record expense =
  e_id :: oid
  e_user_id :: oid
  e_type :: string
  e_amount :: amount
  e_description :: string
  e_date :: string

record server =
  isDbReady :: bool
  JWT_SECRET :: string
  users :: "user list"
  expenses :: "expense list"

text \<open>
  What the environment supplies to one request: \<open>Date.now()\<close> in milliseconds, the
  \<open>_id\<close> the driver generates for an inserted document, and the salt bcrypt draws.
\<close>

record env =
  now :: nat
  fresh :: oid
  salt :: string

subsection \<open>Requests and responses\<close>

text \<open>The body of \<open>/register\<close> and \<open>/login\<close>, and the body of \<open>POST /expense\<close> and \<open>PUT /expense/:id\<close>.\<close>

record credentials =
  b_username :: "string option"
  b_password :: "string option"

record entry =
  b_type :: "string option"
  b_amount :: "amount option"
  b_description :: "string option"
  b_date :: "string option"

text \<open>The claims of a token: \<open>{user_id, username, iat, exp}\<close>, the times in seconds.\<close>

record payload =
  p_user_id :: oid
  p_username :: string
  p_iat :: nat
  p_exp :: nat

text \<open>
  One segment of the \<open>Authorization\<close> header, as \<open>split(' ')\<close> cuts it: plain text, or the
  serialisation of a payload signed with a key.
\<close>

datatype segment = Text string | Jwt payload string

text \<open>
  The messages of the validators. Those of the expense routes are Thai sentences in the
  source: \<open>TypeMsg\<close> "type must be expense or income", \<open>AmountMsg\<close> "amount must be a number
  greater than 0", \<open>DateMsg\<close> "date must be a date of the form yyyy-mm-dd",
  \<open>DescriptionMsg\<close> "description must not be empty".
\<close>

datatype vmsg =
    UsernameRequired | UsernameMin4 | PasswordMin4 | PasswordRequired
  | TypeMsg | AmountMsg | DateMsg | DescriptionMsg

datatype exn = BSONError | DuplicateKey

text \<open>One group of the summary: \<open>{_id, total_income, total_expense}\<close>; \<open>period\<close> is its \<open>_id\<close>.\<close>

record bucket =
  period :: string
  total_income :: rat
  total_expense :: rat

text \<open>
  A response is a status with a JSON body: \<open>Errors\<close> is \<open>{errors: [...]}\<close>, \<open>Error\<close> is
  \<open>{error: "..."}\<close> with a fixed message, \<open>Thrown\<close> is \<open>{error: e.message}\<close> of a caught
  exception; the others are the bodies sent with status 200.
\<close>

datatype response =
    Errors nat "vmsg list"
  | Error nat string
  | Thrown nat exn
  | Registered oid string
  | Token segment
  | Created oid
  | Listing "expense list"
  | Updated nat
  | Deleted nat
  | Summary "bucket list"

datatype request =
    Register credentials
  | Login credentials
  | PostExpense "segment list option" entry
  | GetExpenses "segment list option"
  | PutExpense "segment list option" "oid option" entry
  | DeleteExpense "segment list option" "oid option"
  | GetSummary "segment list option"

subsection \<open>The libraries: bcryptjs and jsonwebtoken\<close>

text \<open>
  bcryptjs closes the password with a zero byte and keys Blowfish's 18 subkey words from
  it, reading byte after byte and starting over at the end of the data
  (\<open>offp = (offp + 1) % data.length\<close>): 72 bytes in all. A password of 72 bytes or more
  is read up to its 72nd byte and no further.
\<close>

definition key_stream :: "nat \<Rightarrow> string \<Rightarrow> string" where
  "key_stream n ds = map (\<lambda>i. ds ! (i mod length ds)) [0..<n]"

definition bcrypt_key :: "string \<Rightarrow> string" where
  "bcrypt_key pw = key_stream 72 (pw @ [CHR 0x00])"

definition bcrypt_hash :: "string \<Rightarrow> nat \<Rightarrow> string \<Rightarrow> bcrypt_hash" where
  "bcrypt_hash pw cost slt = Bcrypt cost slt (bcrypt_key pw)"

fun bcrypt_compare :: "string \<Rightarrow> bcrypt_hash \<Rightarrow> bool" where
  "bcrypt_compare pw (Bcrypt cost slt k) = (bcrypt_key pw = k)"

text \<open>
  \<open>jwt.sign(claims, key, {expiresIn: '1h'})\<close> stamps \<open>iat\<close> with the clock in whole seconds and
  \<open>exp\<close> with \<open>iat\<close> plus 3600.
\<close>

definition jwt_sign :: "oid \<Rightarrow> string \<Rightarrow> string \<Rightarrow> nat \<Rightarrow> segment" where
  "jwt_sign user_id username key ms =
     Jwt \<lparr>p_user_id = user_id, p_username = username,
          p_iat = ms div 1000, p_exp = ms div 1000 + 3600\<rparr> key"

text \<open>
  \<open>jwt.verify(token, key, callback)\<close>: text that is no token is malformed, a token signed
  with another key has an invalid signature, and a token is expired once the clock, in whole
  seconds, has reached \<open>exp\<close>. \<open>None\<close> is the callback's \<open>err\<close>.
\<close>

fun jwt_verify :: "segment \<Rightarrow> string \<Rightarrow> nat \<Rightarrow> payload option" where
  "jwt_verify (Text t) key ms = None"
| "jwt_verify (Jwt p k) key ms =
     (if k \<noteq> key then None
      else if p_exp p \<le> ms div 1000 then None
      else Some p)"

subsection \<open>The library: express-validator over validator.js\<close>

text \<open>A validator reads the field as a string; an absent field reads as the empty string.\<close>

definition toString :: "string option \<Rightarrow> string" where
  "toString v = (case v of None \<Rightarrow> [] | Some s \<Rightarrow> s)"

definition notEmpty :: "string \<Rightarrow> bool" where
  "notEmpty s = (s \<noteq> [])"

definition isLength_min :: "nat \<Rightarrow> string \<Rightarrow> bool" where
  "isLength_min n s = (n \<le> length s)"

definition isIn :: "string list \<Rightarrow> string \<Rightarrow> bool" where
  "isIn values s = (s \<in> set values)"

text \<open>
  \<open>isFloat(str, {gt: 0})\<close> refuses \<open>''\<close>, \<open>'.'\<close>, \<open>','\<close>, \<open>'-'\<close> and \<open>'+'\<close>, and otherwise asks that
  \<open>str\<close> match \<open>^[-+]?[0-9]*(\.[0-9]*)?([eE][+-]?[0-9]+)?$\<close> and that \<open>parseFloat(str) > 0\<close>.
  The parts of the expression do not overlap, so matching is a single scan.
\<close>

definition is_digit :: "char \<Rightarrow> bool" where
  "is_digit c = (c \<in> set ''0123456789'')"

definition digit_value :: "char \<Rightarrow> nat" where
  "digit_value c = of_char c - 48"

definition digits_value :: "string \<Rightarrow> nat" where
  "digits_value ds = foldl (\<lambda>n c. 10 * n + digit_value c) 0 ds"

text \<open>An optional sign: whether it is a minus, and the text after it.\<close>

fun strip_sign :: "string \<Rightarrow> bool \<times> string" where
  "strip_sign [] = (False, [])"
| "strip_sign (c # cs) =
     (if c = CHR ''-'' then (True, cs)
      else if c = CHR ''+'' then (False, cs)
      else (False, c # cs))"

text \<open>The fraction \<open>(\.[0-9]*)?\<close>: its digits, and the text after it.\<close>

fun strip_fraction :: "string \<Rightarrow> string \<times> string" where
  "strip_fraction [] = ([], [])"
| "strip_fraction (c # cs) =
     (if c = CHR ''.'' then (takeWhile is_digit cs, dropWhile is_digit cs)
      else ([], c # cs))"

text \<open>The exponent \<open>([eE][+-]?[0-9]+)?$\<close>: its value, or \<open>None\<close> when the text does not end so.\<close>

fun strip_exponent :: "string \<Rightarrow> int option" where
  "strip_exponent [] = Some 0"
| "strip_exponent (c # cs) =
     (if c = CHR ''e'' \<or> c = CHR ''E'' then
        (case strip_sign cs of
           (neg, ds) \<Rightarrow>
             if ds \<noteq> [] \<and> list_all is_digit ds
             then Some (if neg then - int (digits_value ds) else int (digits_value ds))
             else None)
      else None)"

text \<open>The number a decimal literal denotes: the digits, scaled by a power of ten.\<close>

definition scaled :: "nat \<Rightarrow> int \<Rightarrow> rat" where
  "scaled m k = (if 0 \<le> k then of_nat m * 10 ^ nat k else of_nat m / 10 ^ nat (- k))"

text \<open>
  \<open>parseFloat\<close> gives \<open>NaN\<close> for a literal without a digit before the exponent, and rounds to
  the nearest double: a positive number rounds to 0 exactly when it is at most \<open>2^-1075\<close>,
  half the least positive double.
\<close>

definition isFloat_gt0 :: "string \<Rightarrow> bool" where
  "isFloat_gt0 str =
     (if str \<in> set [[], ''.'', '','', ''-'', ''+''] then False
      else
        (case strip_sign str of
           (neg, s1) \<Rightarrow>
             (case strip_fraction (dropWhile is_digit s1) of
                (fr, s2) \<Rightarrow>
                  (case strip_exponent s2 of
                     None \<Rightarrow> False
                   | Some ex \<Rightarrow>
                       let mant = takeWhile is_digit s1 @ fr in
                       mant \<noteq> [] \<and> \<not> neg \<and>
                       1 / 2 ^ 1075 < scaled (digits_value mant) (ex - int (length fr))))))"

text \<open>
  The \<open>amount\<close> field under \<open>isFloat({gt: 0})\<close>. A number is validated through its printed
  form, which is a literal the expression matches and which reads back as the same number.
\<close>

fun amount_isFloat_gt0 :: "amount option \<Rightarrow> bool" where
  "amount_isFloat_gt0 None = isFloat_gt0 []"
| "amount_isFloat_gt0 (Some (AStr s)) = isFloat_gt0 s"
| "amount_isFloat_gt0 (Some (ANum x)) = (0 < x)"

text \<open>
  \<open>isISO8601\<close> is validator.js's and is taken as a parameter of the routes that call it; an
  absent \<open>date\<close> reads as the empty string, which is no date.
\<close>

fun date_isISO8601 :: "(string \<Rightarrow> bool) \<Rightarrow> string option \<Rightarrow> bool" where
  "date_isISO8601 isISO8601 None = False"
| "date_isISO8601 isISO8601 (Some d) = isISO8601 d"

subsection \<open>The library: the MongoDB driver\<close>

text \<open>\<open>findOne({username})\<close>: the first document with that username, if any.\<close>

definition findOne :: "string \<Rightarrow> user list \<Rightarrow> user option" where
  "findOne username docs = find (\<lambda>u. uname u = username) docs"

text \<open>
  \<open>insertOne(doc)\<close> stores the document under the \<open>_id\<close> the driver generated; the unique
  index on \<open>_id\<close> refuses a duplicate.
\<close>

definition insertOne :: "('a \<Rightarrow> oid) \<Rightarrow> 'a \<Rightarrow> 'a list \<Rightarrow> exn + 'a list" where
  "insertOne ident doc docs =
     (if ident doc \<in> set (map ident docs) then Inl DuplicateKey else Inr (docs @ [doc]))"

text \<open>
  \<open>find({user_id}).sort({date: -1}).toArray()\<close>: the documents of that owner, by \<open>date\<close>
  descending. The driver promises nothing about the order of documents that sort equal,
  so a result is any arrangement of the matching documents that descends by \<open>date\<close>.
\<close>

definition find_sort :: "oid \<Rightarrow> expense list \<Rightarrow> expense list \<Rightarrow> bool" where
  "find_sort owner docs result =
     (mset result = mset (filter (\<lambda>d. e_user_id d = owner) docs) \<and>
      sorted_wrt (\<lambda>a b. e_date b \<le> e_date a) result)"

text \<open>
  \<open>updateOne(filter, {$set: ...})\<close> rewrites the first document the filter matches.
  \<open>matchedCount\<close> counts the match, \<open>modifiedCount\<close> counts it only when the rewrite
  changed the document.
\<close>

record 'a update_result =
  matchedCount :: nat
  modifiedCount :: nat
  updated_docs :: "'a list"

fun updateOne :: "('a \<Rightarrow> bool) \<Rightarrow> ('a \<Rightarrow> 'a) \<Rightarrow> 'a list \<Rightarrow> 'a update_result" where
  "updateOne matches set_fields [] =
     \<lparr>matchedCount = 0, modifiedCount = 0, updated_docs = []\<rparr>"
| "updateOne matches set_fields (d # ds) =
     (if matches d
      then \<lparr>matchedCount = 1, modifiedCount = (if set_fields d = d then 0 else 1),
            updated_docs = set_fields d # ds\<rparr>
      else (let r = updateOne matches set_fields ds
            in r\<lparr>updated_docs := d # updated_docs r\<rparr>))"

text \<open>\<open>deleteOne(filter)\<close> removes the first document the filter matches.\<close>

record 'a delete_result =
  deletedCount :: nat
  remaining_docs :: "'a list"

fun deleteOne :: "('a \<Rightarrow> bool) \<Rightarrow> 'a list \<Rightarrow> 'a delete_result" where
  "deleteOne matches [] = \<lparr>deletedCount = 0, remaining_docs = []\<rparr>"
| "deleteOne matches (d # ds) =
     (if matches d then \<lparr>deletedCount = 1, remaining_docs = ds\<rparr>
      else (let r = deleteOne matches ds
            in r\<lparr>remaining_docs := d # remaining_docs r\<rparr>))"

text \<open>
  The \<open>$group\<close> stage of \<open>/summary\<close>. Its key is \<open>{$substr: ['$date', 0, 7]}\<close>. Each
  accumulator is \<open>{$sum: {$cond: [{$eq: ['$type', t]}, '$amount', 0]}}\<close>: the operand is the
  amount when the type is \<open>t\<close> and 0 otherwise, and \<open>$sum\<close> passes over an operand that is
  not a number.
\<close>

definition group_key :: "expense \<Rightarrow> string" where
  "group_key d = take 7 (e_date d)"

fun sum_operand :: "amount \<Rightarrow> rat" where
  "sum_operand (ANum x) = x"
| "sum_operand (AStr t) = 0"

definition cond_amount :: "string \<Rightarrow> expense \<Rightarrow> rat" where
  "cond_amount t d = (if e_type d = t then sum_operand (e_amount d) else 0)"

text \<open>One document enters its group, or opens a new group after the others.\<close>

fun accumulate :: "expense \<Rightarrow> bucket list \<Rightarrow> bucket list" where
  "accumulate d [] =
     [\<lparr>period = group_key d, total_income = cond_amount ''income'' d,
       total_expense = cond_amount ''expense'' d\<rparr>]"
| "accumulate d (b # bs) =
     (if period b = group_key d
      then b\<lparr>total_income := total_income b + cond_amount ''income'' d,
             total_expense := total_expense b + cond_amount ''expense'' d\<rparr> # bs
      else b # accumulate d bs)"

definition group_stage :: "expense list \<Rightarrow> bucket list" where
  "group_stage docs = foldl (\<lambda>bs d. accumulate d bs) [] docs"

text \<open>
  \<open>aggregate([{$match: {user_id}}, {$group: ...}]).toArray()\<close>: the groups of the owner's
  documents. \<open>$group\<close> promises no order of its output, so a result is any arrangement of
  the groups.
\<close>

definition aggregate :: "oid \<Rightarrow> expense list \<Rightarrow> bucket list \<Rightarrow> bool" where
  "aggregate owner docs result =
     (mset result = mset (group_stage (filter (\<lambda>d. e_user_id d = owner) docs)))"

subsection \<open>The middleware\<close>

text \<open>The readiness check, registered before every route: its response, if it answers.\<close>

definition db_ready_check :: "server \<Rightarrow> response option" where
  "db_ready_check s =
     (if \<not> isDbReady s then Some (Error 503 ''Database not ready'') else None)"

text \<open>
  \<open>authenticateToken\<close>. The header is given as \<open>split(' ')\<close> cuts it, \<open>None\<close> when the
  request has none; the token is the second segment, and a missing or empty one is refused
  before verification. \<open>Inr\<close> is \<open>req.user\<close>.
\<close>

definition second_segment :: "segment list option \<Rightarrow> segment option" where
  "second_segment authHeader =
     (case authHeader of
        None \<Rightarrow> None
      | Some parts \<Rightarrow> (if 1 < length parts then Some (parts ! 1) else None))"

definition authenticateToken :: "env \<Rightarrow> server \<Rightarrow> segment list option \<Rightarrow> response + payload" where
  "authenticateToken e s authHeader =
     (case second_segment authHeader of
        None \<Rightarrow> Inl (Error 401 ''No token provided'')
      | Some token \<Rightarrow>
          if token = Text [] then Inl (Error 401 ''No token provided'')
          else (case jwt_verify token (JWT_SECRET s) (now e) of
                  None \<Rightarrow> Inl (Error 403 ''Invalid token'')
                | Some user \<Rightarrow> Inr user))"

subsection \<open>The handlers\<close>

definition validate_register :: "credentials \<Rightarrow> vmsg list" where
  "validate_register b =
     (if notEmpty (toString (b_username b)) then [] else [UsernameRequired]) @
     (if isLength_min 4 (toString (b_username b)) then [] else [UsernameMin4]) @
     (if isLength_min 4 (toString (b_password b)) then [] else [PasswordMin4])"

definition register :: "env \<Rightarrow> credentials \<Rightarrow> server \<Rightarrow> response \<times> server" where
  "register e b s =
     (if validate_register b \<noteq> [] then (Errors 400 (validate_register b), s)
      else
        (let username = toString (b_username b); password = toString (b_password b) in
         case findOne username (users s) of
           Some u \<Rightarrow> (Error 400 ''Username already exists'', s)
         | None \<Rightarrow>
             (let hash = bcrypt_hash password 10 (salt e) in
              case insertOne uid \<lparr>uid = fresh e, uname = username, pwhash = hash\<rparr> (users s) of
                Inl ex \<Rightarrow> (Thrown 400 ex, s)
              | Inr docs \<Rightarrow> (Registered (fresh e) username, s\<lparr>users := docs\<rparr>))))"

definition validate_login :: "credentials \<Rightarrow> vmsg list" where
  "validate_login b =
     (if notEmpty (toString (b_username b)) then [] else [UsernameRequired]) @
     (if notEmpty (toString (b_password b)) then [] else [PasswordRequired])"

definition login :: "env \<Rightarrow> credentials \<Rightarrow> server \<Rightarrow> response \<times> server" where
  "login e b s =
     (if validate_login b \<noteq> [] then (Errors 400 (validate_login b), s)
      else
        (let username = toString (b_username b); password = toString (b_password b) in
         case findOne username (users s) of
           None \<Rightarrow> (Error 401 ''User not found'', s)
         | Some u \<Rightarrow>
             if \<not> bcrypt_compare password (pwhash u) then (Error 401 ''Invalid password'', s)
             else (Token (jwt_sign (uid u) username (JWT_SECRET s) (now e)), s)))"

text \<open>The four validators shared by \<open>POST /expense\<close> and \<open>PUT /expense/:id\<close>, in their order.\<close>

definition validate_entry :: "(string \<Rightarrow> bool) \<Rightarrow> entry \<Rightarrow> vmsg list" where
  "validate_entry isISO8601 b =
     (if isIn [''expense'', ''income''] (toString (b_type b)) then [] else [TypeMsg]) @
     (if amount_isFloat_gt0 (b_amount b) then [] else [AmountMsg]) @
     (if date_isISO8601 isISO8601 (b_date b) then [] else [DateMsg]) @
     (if notEmpty (toString (b_description b)) then [] else [DescriptionMsg])"

text \<open>
  \<open>POST /expense\<close>. The body's values are stored as they came: the amount keeps the type
  (number or string) it was sent with. A body that passed the validators has all four
  fields, so the branch for an absent amount is never taken.
\<close>

definition post_expense ::
    "(string \<Rightarrow> bool) \<Rightarrow> env \<Rightarrow> payload \<Rightarrow> entry \<Rightarrow> server \<Rightarrow> response \<times> server" where
  "post_expense isISO8601 e user b s =
     (if validate_entry isISO8601 b \<noteq> [] then (Errors 400 (validate_entry isISO8601 b), s)
      else
        (case b_amount b of
           None \<Rightarrow> (Errors 400 [AmountMsg], s)
         | Some amount \<Rightarrow>
             (case insertOne e_id
                     \<lparr>e_id = fresh e, e_user_id = p_user_id user, e_type = toString (b_type b),
                      e_amount = amount, e_description = toString (b_description b),
                      e_date = toString (b_date b)\<rparr> (expenses s) of
                Inl ex \<Rightarrow> (Thrown 400 ex, s)
              | Inr docs \<Rightarrow> (Created (fresh e), s\<lparr>expenses := docs\<rparr>))))"

text \<open>\<open>GET /expenses\<close>: the responses the route may send, and the state it leaves.\<close>

definition get_expenses :: "payload \<Rightarrow> server \<Rightarrow> response \<times> server \<Rightarrow> bool" where
  "get_expenses user s out =
     (case fst out of
        Listing result \<Rightarrow> snd out = s \<and> find_sort (p_user_id user) (expenses s) result
      | _ \<Rightarrow> False)"

text \<open>
  \<open>PUT /expense/:id\<close>. The path parameter is given as \<open>new ObjectId(req.params.id)\<close> reads it,
  \<open>None\<close> when the constructor throws. The filter names both the \<open>_id\<close> and the \<open>user_id\<close>.
\<close>

definition put_expense ::
    "(string \<Rightarrow> bool) \<Rightarrow> payload \<Rightarrow> oid option \<Rightarrow> entry \<Rightarrow> server \<Rightarrow> response \<times> server" where
  "put_expense isISO8601 user param b s =
     (if validate_entry isISO8601 b \<noteq> [] then (Errors 400 (validate_entry isISO8601 b), s)
      else
        (case param of
           None \<Rightarrow> (Thrown 400 BSONError, s)
         | Some i \<Rightarrow>
             (case b_amount b of
                None \<Rightarrow> (Errors 400 [AmountMsg], s)
              | Some amount \<Rightarrow>
                  (let r = updateOne (\<lambda>d. e_id d = i \<and> e_user_id d = p_user_id user)
                             (\<lambda>d. d\<lparr>e_type := toString (b_type b), e_amount := amount,
                                    e_description := toString (b_description b),
                                    e_date := toString (b_date b)\<rparr>)
                             (expenses s)
                   in (Updated (modifiedCount r), s\<lparr>expenses := updated_docs r\<rparr>)))))"

definition delete_expense :: "payload \<Rightarrow> oid option \<Rightarrow> server \<Rightarrow> response \<times> server" where
  "delete_expense user param s =
     (case param of
        None \<Rightarrow> (Thrown 400 BSONError, s)
      | Some i \<Rightarrow>
          (let r = deleteOne (\<lambda>d. e_id d = i \<and> e_user_id d = p_user_id user) (expenses s)
           in (Deleted (deletedCount r), s\<lparr>expenses := remaining_docs r\<rparr>)))"

text \<open>\<open>GET /summary\<close>: the responses the route may send, and the state it leaves.\<close>

definition get_summary :: "payload \<Rightarrow> server \<Rightarrow> response \<times> server \<Rightarrow> bool" where
  "get_summary user s out =
     (case fst out of
        Summary result \<Rightarrow> snd out = s \<and> aggregate (p_user_id user) (expenses s) result
      | _ \<Rightarrow> False)"

subsection \<open>The application\<close>

text \<open>
  A route that needs a token runs its handler on \<open>req.user\<close>, or sends what
  \<open>authenticateToken\<close> sent.
\<close>

definition with_token ::
    "env \<Rightarrow> server \<Rightarrow> segment list option \<Rightarrow> (payload \<Rightarrow> response \<times> server \<Rightarrow> bool) \<Rightarrow>
     response \<times> server \<Rightarrow> bool" where
  "with_token e s authHeader handler out =
     (case authenticateToken e s authHeader of
        Inl r \<Rightarrow> out = (r, s)
      | Inr user \<Rightarrow> handler user out)"

fun route ::
    "(string \<Rightarrow> bool) \<Rightarrow> env \<Rightarrow> request \<Rightarrow> server \<Rightarrow> response \<times> server \<Rightarrow> bool" where
  "route isISO8601 e (Register b) s out = (out = register e b s)"
| "route isISO8601 e (Login b) s out = (out = login e b s)"
| "route isISO8601 e (PostExpense h b) s out =
     with_token e s h (\<lambda>user out. out = post_expense isISO8601 e user b s) out"
| "route isISO8601 e (GetExpenses h) s out =
     with_token e s h (\<lambda>user out. get_expenses user s out) out"
| "route isISO8601 e (PutExpense h param b) s out =
     with_token e s h (\<lambda>user out. out = put_expense isISO8601 user param b s) out"
| "route isISO8601 e (DeleteExpense h param) s out =
     with_token e s h (\<lambda>user out. out = delete_expense user param s) out"
| "route isISO8601 e (GetSummary h) s out =
     with_token e s h (\<lambda>user out. get_summary user s out) out"

text \<open>
  \<open>app\<close>: whether the application may answer a request in state \<open>s\<close> with the response
  and the next state \<open>out\<close>. The readiness check runs first, on every request.
\<close>

definition app ::
    "(string \<Rightarrow> bool) \<Rightarrow> env \<Rightarrow> request \<Rightarrow> server \<Rightarrow> response \<times> server \<Rightarrow> bool" where
  "app isISO8601 e req s out =
     (case db_ready_check s of
        Some r \<Rightarrow> out = (r, s)
      | None \<Rightarrow> route isISO8601 e req s out)"

subsection \<open>Example data\<close>

text \<open>
  One date validator for the examples: it accepts exactly the shape \<open>dddd-dd-dd\<close>.
\<close>

definition iso_ymd :: "string \<Rightarrow> bool" where
  "iso_ymd d =
     (length d = 10 \<and> d ! 4 = CHR ''-'' \<and> d ! 7 = CHR ''-'' \<and>
      list_all is_digit (take 4 d @ take 2 (drop 5 d) @ drop 8 d))"

definition env0 :: env where
  "env0 = \<lparr>now = 1000000, fresh = 7, salt = ''s1''\<rparr>"

text \<open>The module state before \<open>startServer\<close> has connected.\<close>

definition starting :: server where
  "starting = \<lparr>isDbReady = False, JWT_SECRET = ''yourSecretKey'', users = [], expenses = []\<rparr>"

definition alice_body :: credentials where
  "alice_body = \<lparr>b_username = Some ''alice'', b_password = Some ''pass1234''\<rparr>"

text \<open>The module state once connected, with two users and three entries.\<close>

definition alice :: user where
  "alice = \<lparr>uid = 1, uname = ''alice'', pwhash = bcrypt_hash ''pass1234'' 10 ''s0''\<rparr>"

definition bobby :: user where
  "bobby = \<lparr>uid = 2, uname = ''bobby'', pwhash = bcrypt_hash ''hunter22'' 10 ''s2''\<rparr>"

definition lunch :: expense where
  "lunch = \<lparr>e_id = 11, e_user_id = 1, e_type = ''expense'', e_amount = ANum 12.5,
            e_description = ''lunch'', e_date = ''2025-01-05''\<rparr>"

definition salary :: expense where
  "salary = \<lparr>e_id = 12, e_user_id = 1, e_type = ''income'', e_amount = ANum 1000,
             e_description = ''salary'', e_date = ''2025-01-05''\<rparr>"

definition rent :: expense where
  "rent = \<lparr>e_id = 13, e_user_id = 2, e_type = ''expense'', e_amount = ANum 400,
           e_description = ''rent'', e_date = ''2025-02-01''\<rparr>"

definition ledger :: server where
  "ledger = \<lparr>isDbReady = True, JWT_SECRET = ''yourSecretKey'', users = [alice, bobby],
             expenses = [lunch, salary, rent]\<rparr>"

definition alice_identity :: payload where
  "alice_identity = \<lparr>p_user_id = 1, p_username = ''alice'', p_iat = 1000, p_exp = 4600\<rparr>"

definition bobby_identity :: payload where
  "bobby_identity = \<lparr>p_user_id = 2, p_username = ''bobby'', p_iat = 1000, p_exp = 4600\<rparr>"


text \<open>A connected state without entries, and a body whose amount is the string \<open>"12.5"\<close>.\<close>

definition online :: server where
  "online = \<lparr>isDbReady = True, JWT_SECRET = ''yourSecretKey'', users = [alice],
                expenses = []\<rparr>"

definition text_amount_body :: entry where
  "text_amount_body = \<lparr>b_type = Some ''expense'', b_amount = Some (AStr ''12.5''),
                       b_description = Some ''lunch'', b_date = Some ''2025-01-05''\<rparr>"

definition text_amount_doc :: expense where
  "text_amount_doc = \<lparr>e_id = 7, e_user_id = 1, e_type = ''expense'', e_amount = AStr ''12.5'',
                      e_description = ''lunch'', e_date = ''2025-01-05''\<rparr>"

text \<open>
  Two passwords of 73 characters that differ in the last one only, and the state after
  \<open>carol\<close> has registered with the first of them.
\<close>

definition long_password :: "char \<Rightarrow> string" where
  "long_password c = replicate 72 (CHR ''a'') @ [c]"

definition carol_body :: "char \<Rightarrow> credentials" where
  "carol_body c = \<lparr>b_username = Some ''carol'', b_password = Some (long_password c)\<rparr>"

definition with_carol :: server where
  "with_carol = online\<lparr>users := [alice,
     \<lparr>uid = 7, uname = ''carol'',
      pwhash = bcrypt_hash (long_password (CHR ''b'')) 10 ''s1''\<rparr>]\<rparr>"

subsection \<open>Notions used by the properties\<close>

text \<open>The body that repeats the fields a stored document already has.\<close>

definition entry_of :: "expense \<Rightarrow> entry" where
  "entry_of d = \<lparr>b_type = Some (e_type d), b_amount = Some (e_amount d),
                 b_description = Some (e_description d), b_date = Some (e_date d)\<rparr>"

text \<open>
  The uniqueness the collections keep: the \<open>_id\<close> index of each collection, and the username
  that \<open>/register\<close> looks up before it inserts.
\<close>

definition unique_keys :: "server \<Rightarrow> bool" where
  "unique_keys s =
     (distinct (map e_id (expenses s)) \<and> distinct (map uid (users s)) \<and>
      distinct (map uname (users s)))"

text \<open>Every stored entry would pass the validators again.\<close>

definition stored_valid :: "(string \<Rightarrow> bool) \<Rightarrow> server \<Rightarrow> bool" where
  "stored_valid isISO8601 s =
     (\<forall>d \<in> set (expenses s). validate_entry isISO8601 (entry_of d) = [])"

text \<open>The states the application reaches from \<open>s0\<close> by answering requests.\<close>

inductive reachable :: "(string \<Rightarrow> bool) \<Rightarrow> server \<Rightarrow> server \<Rightarrow> bool"
  for isISO8601 :: "string \<Rightarrow> bool" and s0 :: server where
  start: "reachable isISO8601 s0 s0"
| step: "reachable isISO8601 s0 s \<Longrightarrow> app isISO8601 e req s (r, s') \<Longrightarrow>
         reachable isISO8601 s0 s'"

text \<open>
  The sum of the amounts of the documents of type \<open>t\<close> whose date begins with \<open>k\<close>; an
  amount that is not a number counts as 0.
\<close>

definition bucket_sum :: "string \<Rightarrow> string \<Rightarrow> expense list \<Rightarrow> rat" where
  "bucket_sum t k docs =
     sum_list (map (\<lambda>d. sum_operand (e_amount d))
       (filter (\<lambda>d. take 7 (e_date d) = k \<and> e_type d = t) docs))"


section \<open>Properties\<close>

subsection \<open>The readiness gate\<close>

text \<open>
  C7 (as amended). While the connection is not established, every request, those to
  \<open>/register\<close> and \<open>/login\<close> included, is answered with status 503 and the state is left as
  it was; the check reads the flag on each request.
\<close>

theorem gate_rejects_every_request:
  "\<not> isDbReady s \<Longrightarrow>
     app isISO e req s out = (out = (Error 503 ''Database not ready'', s))"
  by (simp add: app_def db_ready_check_def)

theorem gate_rejects_every_request_witness:
  "\<not> isDbReady starting \<and>
   app iso_ymd env0 (GetSummary None) starting (Error 503 ''Database not ready'', starting)"
  using gate_rejects_every_request [of starting iso_ymd env0 "GetSummary None"
      "(Error 503 ''Database not ready'', starting)"]
  by (simp add: starting_def)

text \<open>
  C7 as stated fails: before the connection is established, \<open>/register\<close> and \<open>/login\<close> are
  answered with 503 like every other route.
\<close>

theorem register_and_login_gated:
  "\<not> isDbReady starting \<and>
   app iso_ymd env0 (Register alice_body) starting (Error 503 ''Database not ready'', starting) \<and>
   app iso_ymd env0 (Login alice_body) starting (Error 503 ''Database not ready'', starting)"
  by (simp add: app_def db_ready_check_def starting_def)

subsection \<open>Filters that match no document, or one\<close>

lemma updateOne_no_match:
  "\<forall>d \<in> set ds. \<not> matches d \<Longrightarrow>
     updateOne matches f ds = \<lparr>matchedCount = 0, modifiedCount = 0, updated_docs = ds\<rparr>"
  by (induction ds) (simp_all add: Let_def)

lemma deleteOne_no_match:
  "\<forall>d \<in> set ds. \<not> matches d \<Longrightarrow>
     deleteOne matches ds = \<lparr>deletedCount = 0, remaining_docs = ds\<rparr>"
  by (induction ds) (simp_all add: Let_def)

lemma same_id_same_doc:
  "distinct (map e_id ds) \<Longrightarrow> d \<in> set ds \<Longrightarrow> x \<in> set ds \<Longrightarrow> e_id x = e_id d \<Longrightarrow> x = d"
  by (meson distinct_map inj_on_def)

lemma foreign_filter_no_match:
  assumes "distinct (map e_id ds)" "d \<in> set ds" "e_user_id d \<noteq> owner"
  shows "\<forall>x \<in> set ds. \<not> (e_id x = e_id d \<and> e_user_id x = owner)"
  using assms same_id_same_doc by blast

lemma updateOne_unchanged:
  assumes "distinct (map e_id ds)" and "d \<in> set ds" and "e_user_id d = owner" and "f d = d"
  shows "updateOne (\<lambda>x. e_id x = e_id d \<and> e_user_id x = owner) f ds =
           \<lparr>matchedCount = 1, modifiedCount = 0, updated_docs = ds\<rparr>"
  using assms
proof (induction ds)
  case Nil
  then show ?case by simp
next
  case (Cons x xs)
  show ?case
  proof (cases "e_id x = e_id d")
    case True
    then have "x = d"
      using same_id_same_doc [OF Cons.prems(1) Cons.prems(2), of x] by simp
    then show ?thesis using Cons.prems by simp
  next
    case False
    then have "d \<in> set xs" using Cons.prems(2) by auto
    then show ?thesis using False Cons by (simp add: Let_def)
  qed
qed

lemma find_sort_set:
  "find_sort owner docs result \<Longrightarrow> set result = {d \<in> set docs. e_user_id d = owner}"
  unfolding find_sort_def by (metis mset_eq_setD set_filter)

lemma post_expense_created:
  assumes "post_expense isISO e user b s = (Created i, s')"
  shows "\<exists>d \<in> set (expenses s'). e_id d = i \<and> e_user_id d = p_user_id user"
  using assms
  by (auto simp: post_expense_def insertOne_def split: if_splits option.splits)

subsection \<open>What every reachable state satisfies\<close>

lemma findOne_uname: "findOne name docs = Some u \<Longrightarrow> uname u = name \<and> u \<in> set docs"
  unfolding findOne_def by (auto simp: find_Some_iff)

lemma findOne_None: "(findOne name docs = None) = (\<forall>u \<in> set docs. uname u \<noteq> name)"
  unfolding findOne_def by (auto simp: find_None_iff)

lemma validate_entry_passes:
  "(validate_entry isISO b = []) =
     (toString (b_type b) \<in> {''expense'', ''income''} \<and> amount_isFloat_gt0 (b_amount b) \<and>
      date_isISO8601 isISO (b_date b) \<and> toString (b_description b) \<noteq> [])"
  by (simp add: validate_entry_def isIn_def notEmpty_def)

lemma updateOne_ids:
  "(\<And>d. ident (f d) = ident d) \<Longrightarrow>
     map ident (updated_docs (updateOne matches f ds)) = map ident ds"
  by (induction ds) (simp_all add: Let_def)

lemma updateOne_set:
  "set (updated_docs (updateOne matches f ds)) \<subseteq> set ds \<union> f ` set ds"
  by (induction ds) (auto simp: Let_def)

lemma deleteOne_set: "set (remaining_docs (deleteOne matches ds)) \<subseteq> set ds"
  by (induction ds) (auto simp: Let_def)

lemma deleteOne_distinct:
  "distinct (map ident ds) \<Longrightarrow> distinct (map ident (remaining_docs (deleteOne matches ds)))"
proof (induction ds)
  case Nil
  then show ?case by simp
next
  case (Cons d ds)
  have "set (remaining_docs (deleteOne matches ds)) \<subseteq> set ds" by (rule deleteOne_set)
  with Cons show ?case by (auto simp: Let_def)
qed

lemma validated_fields:
  assumes "validate_entry isISO b = []"
  shows "\<exists>t a x d. b = \<lparr>b_type = Some t, b_amount = Some a, b_description = Some x, b_date = Some d\<rparr>"
proof -
  from assms have t: "toString (b_type b) \<in> {''expense'', ''income''}"
    and a: "amount_isFloat_gt0 (b_amount b)" and d: "date_isISO8601 isISO (b_date b)"
    and x: "toString (b_description b) \<noteq> []"
    by (simp_all add: validate_entry_passes)
  from t obtain t' where "b_type b = Some t'"
    by (cases "b_type b") (auto simp: toString_def)
  moreover from a obtain a' where "b_amount b = Some a'"
    by (cases "b_amount b") (simp_all add: isFloat_gt0_def)
  moreover from d obtain d' where "b_date b = Some d'"
    by (cases "b_date b") simp_all
  moreover from x obtain x' where "b_description b = Some x'"
    by (cases "b_description b") (auto simp: toString_def)
  ultimately show ?thesis by (cases b) auto
qed

lemma register_keeps:
  assumes "unique_keys s" and "register e b s = (r, s')"
  shows "unique_keys s' \<and> expenses s' = expenses s"
proof (cases "validate_register b = [] \<and> findOne (toString (b_username b)) (users s) = None \<and>
    fresh e \<notin> set (map uid (users s))")
  case False
  with assms show ?thesis
    by (auto simp: register_def insertOne_def Let_def split: if_splits option.splits)
next
  case True
  then have "toString (b_username b) \<notin> set (map uname (users s))"
    by (auto simp: findOne_None)
  with assms True show ?thesis
    by (auto simp: register_def insertOne_def Let_def unique_keys_def)
qed

lemma login_keeps: "login e b s = (r, s') \<Longrightarrow> s' = s"
  by (auto simp: login_def Let_def split: if_splits option.splits)

lemma post_expense_keeps:
  assumes "unique_keys s" and "stored_valid isISO s"
    and "post_expense isISO e user b s = (r, s')"
  shows "unique_keys s' \<and> stored_valid isISO s'"
proof (cases "validate_entry isISO b = []")
  case False
  with assms show ?thesis by (simp add: post_expense_def)
next
  case True
  from validated_fields [OF True] obtain t a x d where
    b: "b = \<lparr>b_type = Some t, b_amount = Some a, b_description = Some x, b_date = Some d\<rparr>"
    by blast
  have v: "validate_entry isISO (entry_of \<lparr>e_id = fresh e, e_user_id = p_user_id user,
      e_type = t, e_amount = a, e_description = x, e_date = d\<rparr>) = []"
    using True by (simp add: b entry_of_def)
  from assms True v show ?thesis
    by (auto simp: post_expense_def b toString_def insertOne_def unique_keys_def stored_valid_def
        split: if_splits)
qed

lemma put_expense_keeps:
  assumes "unique_keys s" and "stored_valid isISO s"
    and "put_expense isISO user param b s = (r, s')"
  shows "unique_keys s' \<and> stored_valid isISO s'"
proof (cases "validate_entry isISO b = [] \<and> param \<noteq> None")
  case False
  with assms show ?thesis by (auto simp: put_expense_def split: option.splits if_splits)
next
  case True
  then obtain i where i: "param = Some i" by auto
  from True validated_fields obtain t a x d where
    b: "b = \<lparr>b_type = Some t, b_amount = Some a, b_description = Some x, b_date = Some d\<rparr>"
    by blast
  let ?f = "\<lambda>y. y\<lparr>e_type := t, e_amount := a, e_description := x, e_date := d\<rparr>"
  let ?r = "updateOne (\<lambda>y. e_id y = i \<and> e_user_id y = p_user_id user) ?f (expenses s)"
  from assms(3) True have s': "s' = s\<lparr>expenses := updated_docs ?r\<rparr>"
    by (simp add: put_expense_def i b toString_def Let_def)
  have ids: "map e_id (updated_docs ?r) = map e_id (expenses s)"
    by (rule updateOne_ids) simp
  have "validate_entry isISO (entry_of (?f y)) = []" for y
    using True by (simp add: b entry_of_def)
  moreover have "set (updated_docs ?r) \<subseteq> set (expenses s) \<union> ?f ` set (expenses s)"
    by (rule updateOne_set)
  ultimately have "\<forall>y \<in> set (updated_docs ?r). validate_entry isISO (entry_of y) = []"
    using assms(2) unfolding stored_valid_def by blast
  with assms(1) ids show ?thesis
    by (simp add: s' unique_keys_def stored_valid_def)
qed

lemma delete_expense_keeps:
  assumes "unique_keys s" and "stored_valid isISO s"
    and "delete_expense user param s = (r, s')"
  shows "unique_keys s' \<and> stored_valid isISO s'"
proof (cases param)
  case None
  with assms show ?thesis by (simp add: delete_expense_def)
next
  case (Some i)
  let ?r = "deleteOne (\<lambda>y. e_id y = i \<and> e_user_id y = p_user_id user) (expenses s)"
  from assms(3) Some have s': "s' = s\<lparr>expenses := remaining_docs ?r\<rparr>"
    by (simp add: delete_expense_def Let_def)
  have "set (remaining_docs ?r) \<subseteq> set (expenses s)" by (rule deleteOne_set)
  moreover have "distinct (map e_id (remaining_docs ?r))"
    using assms(1) by (simp add: unique_keys_def deleteOne_distinct)
  ultimately show ?thesis
    using assms(1,2) by (auto simp: s' unique_keys_def stored_valid_def)
qed

lemma register_fields:
  "register e b s = (r, s') \<Longrightarrow>
     expenses s' = expenses s \<and> isDbReady s' = isDbReady s \<and> JWT_SECRET s' = JWT_SECRET s"
  by (auto simp: register_def Let_def split: if_splits option.splits sum.splits)

lemma post_expense_fields:
  "post_expense isISO e user b s = (r, s') \<Longrightarrow>
     isDbReady s' = isDbReady s \<and> JWT_SECRET s' = JWT_SECRET s"
  by (auto simp: post_expense_def split: if_splits option.splits sum.splits)

lemma put_expense_fields:
  "put_expense isISO user param b s = (r, s') \<Longrightarrow>
     isDbReady s' = isDbReady s \<and> JWT_SECRET s' = JWT_SECRET s"
  by (auto simp: put_expense_def Let_def split: if_splits option.splits)

lemma delete_expense_fields:
  "delete_expense user param s = (r, s') \<Longrightarrow>
     isDbReady s' = isDbReady s \<and> JWT_SECRET s' = JWT_SECRET s"
  by (auto simp: delete_expense_def Let_def split: option.splits)

lemma get_expenses_keeps: "get_expenses user s (r, s') \<Longrightarrow> s' = s"
  by (cases r) (simp_all add: get_expenses_def)

lemma get_summary_keeps: "get_summary user s (r, s') \<Longrightarrow> s' = s"
  by (cases r) (simp_all add: get_summary_def)

lemma with_token_cases:
  assumes "with_token e s h handler out"
  shows "out = (Error 401 ''No token provided'', s) \<or> out = (Error 403 ''Invalid token'', s) \<or>
         (\<exists>user. authenticateToken e s h = Inr user \<and> handler user out)"
  using assms
  by (auto simp: with_token_def authenticateToken_def split: sum.splits option.splits if_splits)

lemma with_token_handler:
  assumes "with_token e s h (\<lambda>user out. out = f user) (r, s')"
  shows "s' = s \<or> (\<exists>user. f user = (r, s'))"
  using with_token_cases [OF assms] by auto

lemma with_token_reader:
  assumes "with_token e s h handler (r, s')" and "\<And>user. handler user (r, s') \<Longrightarrow> s' = s"
  shows "s' = s"
  using with_token_cases [OF assms(1)] assms(2) by auto

lemma app_keeps_invariants:
  assumes "unique_keys s" and "stored_valid isISO s" and "app isISO e req s (r, s')"
  shows "unique_keys s' \<and> stored_valid isISO s' \<and> isDbReady s' = isDbReady s \<and>
         JWT_SECRET s' = JWT_SECRET s"
proof (cases "isDbReady s")
  case False
  with assms show ?thesis by (simp add: app_def db_ready_check_def)
next
  case True
  with assms(3) have rt: "route isISO e req s (r, s')"
    by (simp add: app_def db_ready_check_def)
  have same: "s' = s \<Longrightarrow> ?thesis" using assms(1,2) by simp
  show ?thesis
  proof (cases req)
    case (Register b)
    with rt have eq: "register e b s = (r, s')" by simp
    from register_keeps [OF assms(1) eq] register_fields [OF eq] assms(2)
    show ?thesis by (simp add: stored_valid_def)
  next
    case (Login b)
    with rt have "login e b s = (r, s')" by simp
    then show ?thesis using same by (simp add: login_keeps)
  next
    case (PostExpense h b)
    with rt have "with_token e s h (\<lambda>user out. out = post_expense isISO e user b s) (r, s')"
      by simp
    from with_token_handler [OF this] show ?thesis
    proof
      assume "s' = s" then show ?thesis by (rule same)
    next
      assume "\<exists>user. post_expense isISO e user b s = (r, s')"
      then obtain user where eq: "post_expense isISO e user b s = (r, s')" ..
      from post_expense_keeps [OF assms(1,2) eq] post_expense_fields [OF eq]
      show ?thesis by simp
    qed
  next
    case (GetExpenses h)
    with rt have "with_token e s h (\<lambda>user out. get_expenses user s out) (r, s')" by simp
    then have "s' = s" by (rule with_token_reader) (rule get_expenses_keeps)
    then show ?thesis by (rule same)
  next
    case (PutExpense h p b)
    with rt have "with_token e s h (\<lambda>user out. out = put_expense isISO user p b s) (r, s')"
      by simp
    from with_token_handler [OF this] show ?thesis
    proof
      assume "s' = s" then show ?thesis by (rule same)
    next
      assume "\<exists>user. put_expense isISO user p b s = (r, s')"
      then obtain user where eq: "put_expense isISO user p b s = (r, s')" ..
      from put_expense_keeps [OF assms(1,2) eq] put_expense_fields [OF eq]
      show ?thesis by simp
    qed
  next
    case (DeleteExpense h p)
    with rt have "with_token e s h (\<lambda>user out. out = delete_expense user p s) (r, s')"
      by simp
    from with_token_handler [OF this] show ?thesis
    proof
      assume "s' = s" then show ?thesis by (rule same)
    next
      assume "\<exists>user. delete_expense user p s = (r, s')"
      then obtain user where eq: "delete_expense user p s = (r, s')" ..
      from delete_expense_keeps [OF assms(1,2) eq] delete_expense_fields [OF eq]
      show ?thesis by simp
    qed
  next
    case (GetSummary h)
    with rt have "with_token e s h (\<lambda>user out. get_summary user s out) (r, s')" by simp
    then have "s' = s" by (rule with_token_reader) (rule get_summary_keeps)
    then show ?thesis by (rule same)
  qed
qed

lemma reachable_keeps_invariants:
  assumes "reachable isISO s0 s" and "unique_keys s0" and "stored_valid isISO s0"
  shows "unique_keys s \<and> stored_valid isISO s \<and> isDbReady s = isDbReady s0 \<and>
         JWT_SECRET s = JWT_SECRET s0"
  using assms
proof (induction rule: reachable.induct)
  case start
  then show ?case by simp
next
  case (step s e req r s')
  then have "unique_keys s" and "stored_valid isISO s"
    and "isDbReady s = isDbReady s0" and "JWT_SECRET s = JWT_SECRET s0" by simp_all
  with app_keeps_invariants [OF this(1,2) step.hyps(2)] show ?case by simp
qed

lemma stored_valid_fields:
  assumes "stored_valid isISO s" and "d \<in> set (expenses s)"
  shows "e_type d \<in> {''expense'', ''income''} \<and> amount_isFloat_gt0 (Some (e_amount d)) \<and>
         isISO (e_date d) \<and> e_description d \<noteq> []"
  using assms
  by (auto simp: stored_valid_def validate_entry_passes entry_of_def toString_def)

text \<open>What \<open>POST /expense\<close> answers, case by case.\<close>

lemma post_expense_outcomes:
  "post_expense isISO e user b s =
     (if validate_entry isISO b \<noteq> [] then (Errors 400 (validate_entry isISO b), s)
      else if fresh e \<in> set (map e_id (expenses s)) then (Thrown 400 DuplicateKey, s)
      else (Created (fresh e), s\<lparr>expenses := expenses s @
             [\<lparr>e_id = fresh e, e_user_id = p_user_id user, e_type = toString (b_type b),
               e_amount = (case b_amount b of Some a \<Rightarrow> a | None \<Rightarrow> AStr []),
               e_description = toString (b_description b),
               e_date = toString (b_date b)\<rparr>]\<rparr>))"
proof (cases "validate_entry isISO b = []")
  case False
  then show ?thesis by (simp add: post_expense_def)
next
  case True
  from validated_fields [OF True] obtain t a x d where
    "b = \<lparr>b_type = Some t, b_amount = Some a, b_description = Some x, b_date = Some d\<rparr>"
    by blast
  with True show ?thesis by (simp add: post_expense_def insertOne_def)
qed

text \<open>With the connection up and a token that verifies, a route is its handler.\<close>

lemma app_authenticated:
  assumes "isDbReady s" and "authenticateToken e s h = Inr user"
  shows "app isISO e (PostExpense h b) s out = (out = post_expense isISO e user b s)"
    and "app isISO e (GetExpenses h) s out = get_expenses user s out"
    and "app isISO e (PutExpense h param b) s out = (out = put_expense isISO user param b s)"
    and "app isISO e (DeleteExpense h param) s out = (out = delete_expense user param s)"
    and "app isISO e (GetSummary h) s out = get_summary user s out"
  using assms by (simp_all add: app_def db_ready_check_def with_token_def)

subsection \<open>Ownership\<close>

text \<open>
  C1. Let \<open>d\<close> be a stored entry whose owner is not the authenticated user \<open>userB\<close>, in a
  collection with unique \<open>_id\<close>s. Then no listing sent to \<open>userB\<close> contains \<open>d\<close>, and every
  listed entry is \<open>userB\<close>'s own; \<open>userB\<close>'s update of \<open>d\<close>'s id answers with count 0 (or with
  the validation errors of the body) and changes nothing; \<open>userB\<close>'s delete of \<open>d\<close>'s id answers
  with count 0 and removes nothing; and \<open>userB\<close>'s summary is the one computed without \<open>d\<close>.
  An entry that \<open>POST /expense\<close> creates is stored under the id it returns, with the
  authenticated user as its owner.
\<close>

theorem owner_isolation:
  assumes "d \<in> set (expenses s)" and "e_user_id d \<noteq> p_user_id userB"
    and "distinct (map e_id (expenses s))"
  shows "(get_expenses userB s (Listing result, s') \<longrightarrow>
            d \<notin> set result \<and> (\<forall>x \<in> set result. e_user_id x = p_user_id userB)) \<and>
         put_expense isISO userB (Some (e_id d)) b s =
           (if validate_entry isISO b = [] then (Updated 0, s)
            else (Errors 400 (validate_entry isISO b), s)) \<and>
         delete_expense userB (Some (e_id d)) s = (Deleted 0, s) \<and>
         aggregate (p_user_id userB) (expenses s) =
           aggregate (p_user_id userB) (filter (\<lambda>x. x \<noteq> d) (expenses s)) \<and>
         (post_expense isISO e userA b' s = (Created i, s1) \<longrightarrow>
            (\<exists>x \<in> set (expenses s1). e_id x = i \<and> e_user_id x = p_user_id userA))"
proof -
  have nomatch: "\<forall>x \<in> set (expenses s). \<not> (e_id x = e_id d \<and> e_user_id x = p_user_id userB)"
    using foreign_filter_no_match [OF assms(3) assms(1) assms(2)] .
  have listed: "get_expenses userB s (Listing result, s') \<longrightarrow>
            d \<notin> set result \<and> (\<forall>x \<in> set result. e_user_id x = p_user_id userB)"
    using assms(2) by (auto simp: get_expenses_def dest: find_sort_set)
  have put: "put_expense isISO userB (Some (e_id d)) b s =
           (if validate_entry isISO b = [] then (Updated 0, s)
            else (Errors 400 (validate_entry isISO b), s))"
  proof (cases "validate_entry isISO b = []")
    case True
    then have "amount_isFloat_gt0 (b_amount b)"
      by (auto simp: validate_entry_def split: if_splits)
    then obtain a where "b_amount b = Some a"
      by (cases "b_amount b") (simp_all add: isFloat_gt0_def)
    with True show ?thesis
      by (simp add: put_expense_def updateOne_no_match [OF nomatch])
  next
    case False
    then show ?thesis by (simp add: put_expense_def)
  qed
  have del: "delete_expense userB (Some (e_id d)) s = (Deleted 0, s)"
    by (simp add: delete_expense_def deleteOne_no_match [OF nomatch])
  have "filter (\<lambda>x. e_user_id x = p_user_id userB) (filter (\<lambda>x. x \<noteq> d) (expenses s)) =
        filter (\<lambda>x. e_user_id x = p_user_id userB) (expenses s)"
    using assms(2) by (auto intro: filter_cong)
  then have agg: "aggregate (p_user_id userB) (expenses s) =
           aggregate (p_user_id userB) (filter (\<lambda>x. x \<noteq> d) (expenses s))"
    by (simp add: aggregate_def fun_eq_iff)
  have created: "post_expense isISO e userA b' s = (Created i, s1) \<longrightarrow>
            (\<exists>x \<in> set (expenses s1). e_id x = i \<and> e_user_id x = p_user_id userA)"
    using post_expense_created by blast
  from listed put del agg created show ?thesis by blast
qed

theorem owner_isolation_witness:
  "lunch \<in> set (expenses ledger) \<and> e_user_id lunch \<noteq> p_user_id bobby_identity \<and>
   distinct (map e_id (expenses ledger)) \<and>
   put_expense iso_ymd bobby_identity (Some 11) (entry_of rent) ledger = (Updated 0, ledger) \<and>
   delete_expense bobby_identity (Some 11) ledger = (Deleted 0, ledger)"
proof -
  have h: "lunch \<in> set (expenses ledger)" "e_user_id lunch \<noteq> p_user_id bobby_identity"
      "distinct (map e_id (expenses ledger))"
    by (simp_all add: ledger_def lunch_def salary_def rent_def bobby_identity_def)
  have v: "validate_entry iso_ymd (entry_of rent) = []"
    by (simp add: validate_entry_def entry_of_def rent_def isIn_def toString_def notEmpty_def
        iso_ymd_def is_digit_def)
  have i: "e_id lunch = 11" by (simp add: lunch_def)
  from owner_isolation [OF h, where isISO = iso_ymd and b = "entry_of rent"] h v i
  show ?thesis by simp
qed

subsection \<open>An update that changes nothing\<close>

text \<open>
  C10. For an entry \<open>d\<close> that exists and belongs to the authenticated user, an update whose
  body repeats the stored fields answers \<open>{updated: 0}\<close> and leaves the state as it was,
  although the filter matched one document: the count is \<open>modifiedCount\<close>. An update of an
  id that no entry has answers the same.
\<close>

theorem noop_update_counts_zero:
  assumes "d \<in> set (expenses s)" and "e_user_id d = p_user_id user"
    and "distinct (map e_id (expenses s))"
    and "validate_entry isISO (entry_of d) = []"
  shows "put_expense isISO user (Some (e_id d)) (entry_of d) s = (Updated 0, s) \<and>
         matchedCount (updateOne (\<lambda>x. e_id x = e_id d \<and> e_user_id x = p_user_id user)
            (\<lambda>x. x\<lparr>e_type := e_type d, e_amount := e_amount d,
                   e_description := e_description d, e_date := e_date d\<rparr>) (expenses s)) = 1 \<and>
         (i \<notin> set (map e_id (expenses s)) \<longrightarrow>
            put_expense isISO user (Some i) (entry_of d) s = (Updated 0, s))"
proof -
  let ?f = "\<lambda>x. x\<lparr>e_type := e_type d, e_amount := e_amount d,
                   e_description := e_description d, e_date := e_date d\<rparr>"
  have same: "?f d = d" by simp
  have upd: "updateOne (\<lambda>x. e_id x = e_id d \<and> e_user_id x = p_user_id user) ?f (expenses s) =
      \<lparr>matchedCount = 1, modifiedCount = 0, updated_docs = expenses s\<rparr>"
    using updateOne_unchanged [of "expenses s" d "p_user_id user" ?f] assms(1-3) same
    by blast
  have a: "put_expense isISO user (Some (e_id d)) (entry_of d) s = (Updated 0, s)"
    using assms(4) upd by (simp add: put_expense_def entry_of_def toString_def)
  have b: "put_expense isISO user (Some i) (entry_of d) s = (Updated 0, s)"
    if "i \<notin> set (map e_id (expenses s))"
  proof -
    have "\<forall>x \<in> set (expenses s). \<not> (e_id x = i \<and> e_user_id x = p_user_id user)"
      using that by auto
    from updateOne_no_match [OF this] show ?thesis
      using assms(4) by (simp add: put_expense_def entry_of_def toString_def)
  qed
  from a b upd show ?thesis by simp
qed

theorem noop_update_counts_zero_witness:
  "lunch \<in> set (expenses ledger) \<and> e_user_id lunch = p_user_id alice_identity \<and>
   validate_entry iso_ymd (entry_of lunch) = [] \<and>
   put_expense iso_ymd alice_identity (Some 11) (entry_of lunch) ledger = (Updated 0, ledger) \<and>
   put_expense iso_ymd alice_identity (Some 99) (entry_of lunch) ledger = (Updated 0, ledger)"
proof -
  have h: "lunch \<in> set (expenses ledger)" "e_user_id lunch = p_user_id alice_identity"
      "distinct (map e_id (expenses ledger))"
    by (simp_all add: ledger_def lunch_def salary_def rent_def alice_identity_def)
  have v: "validate_entry iso_ymd (entry_of lunch) = []"
    by (simp add: validate_entry_def entry_of_def lunch_def isIn_def toString_def notEmpty_def
        iso_ymd_def is_digit_def)
  have i: "e_id lunch = 11" "99 \<notin> set (map e_id (expenses ledger))"
    by (simp_all add: ledger_def lunch_def salary_def rent_def)
  from noop_update_counts_zero [OF h v, where i = 99] h v i show ?thesis by simp
qed

subsection \<open>The monthly summary\<close>

lemma bucket_sum_Nil [simp]: "bucket_sum t k [] = 0"
  by (simp add: bucket_sum_def)













subsection \<open>The listing\<close>





subsection \<open>Login and tokens\<close>

lemma findOne_snoc:
  "findOne name docs = None \<Longrightarrow> uname u = name \<Longrightarrow> findOne name (docs @ [u]) = Some u"
  unfolding findOne_def by (induction docs) (auto split: if_splits)

lemma register_creates_user:
  assumes "register e b s = (Registered i name, s')"
  shows "\<exists>u. findOne name (users s') = Some u \<and> uid u = i \<and>
             pwhash u = bcrypt_hash (toString (b_password b)) 10 (salt e) \<and>
             name = toString (b_username b) \<and> name \<noteq> [] \<and> toString (b_password b) \<noteq> []"
proof -
  from assms have v: "validate_register b = []"
    by (auto simp: register_def split: if_splits)
  then have len: "4 \<le> length (toString (b_username b))" "4 \<le> length (toString (b_password b))"
    by (auto simp: validate_register_def isLength_min_def split: if_splits)
  from assms v have none: "findOne (toString (b_username b)) (users s) = None"
    by (auto simp: register_def Let_def split: option.splits)
  from assms v none have s': "s' = s\<lparr>users := users s @
       [\<lparr>uid = fresh e, uname = toString (b_username b),
         pwhash = bcrypt_hash (toString (b_password b)) 10 (salt e)\<rparr>]\<rparr>"
    and i: "i = fresh e" and nm: "name = toString (b_username b)"
    by (auto simp: register_def Let_def insertOne_def split: if_splits)
  have "findOne name (users s') = Some \<lparr>uid = fresh e, uname = toString (b_username b),
         pwhash = bcrypt_hash (toString (b_password b)) 10 (salt e)\<rparr>"
    using none by (simp add: s' nm findOne_snoc)
  with i nm len show ?thesis by auto
qed

subsection \<open>The key bcrypt reads\<close>

lemma bcrypt_compare_hash:
  "bcrypt_compare p (bcrypt_hash q cost slt) = (bcrypt_key p = bcrypt_key q)"
  by (simp add: bcrypt_hash_def)

lemma bcrypt_key_nth:
  "i < 72 \<Longrightarrow> bcrypt_key pw ! i = (pw @ [CHR 0x00]) ! (i mod Suc (length pw))"
  by (simp add: bcrypt_key_def key_stream_def del: upt_rec_numeral)

lemma length_bcrypt_key [simp]: "length (bcrypt_key pw) = 72"
  by (simp add: bcrypt_key_def key_stream_def del: upt_rec_numeral)

lemma bcrypt_key_long:
  assumes "72 \<le> length pw"
  shows "bcrypt_key pw = take 72 pw"
proof (rule nth_equalityI)
  show "length (bcrypt_key pw) = length (take 72 pw)" using assms by simp
next
  fix i assume "i < length (bcrypt_key pw)"
  then have i: "i < 72" by simp
  with assms have "i mod Suc (length pw) = i" by simp
  with i assms show "bcrypt_key pw ! i = take 72 pw ! i"
    by (simp add: bcrypt_key_nth nth_append)
qed

lemma bcrypt_key_short_nth:
  assumes "length pw < 72" and "i \<le> length pw"
  shows "bcrypt_key pw ! i = (pw @ [CHR 0x00]) ! i"
  using assms by (simp add: bcrypt_key_nth)

lemma ordinary_length:
  assumes "length p < 72" and "length q < 72" and "CHR 0x00 \<notin> set q"
    and "length p \<le> length q" and "bcrypt_key p = bcrypt_key q"
  shows "length p = length q"
proof (rule ccontr)
  assume "length p \<noteq> length q"
  with assms(4) have lt: "length p < length q" by simp
  have "bcrypt_key p ! length p = CHR 0x00"
    using assms(1) by (simp add: bcrypt_key_short_nth)
  moreover have "bcrypt_key q ! length p = q ! length p"
    using assms(2) lt by (simp add: bcrypt_key_short_nth nth_append)
  ultimately have "q ! length p = CHR 0x00" using assms(5) by simp
  with lt have "CHR 0x00 \<in> set q" by (metis nth_mem)
  with assms(3) show False by simp
qed

lemma ordinary_passwords:
  assumes "length p < 72" and "length q < 72"
    and "CHR 0x00 \<notin> set p" and "CHR 0x00 \<notin> set q"
  shows "(bcrypt_key p = bcrypt_key q) = (p = q)"
proof
  assume k: "bcrypt_key p = bcrypt_key q"
  have len: "length p = length q"
  proof (cases "length p \<le> length q")
    case True
    with assms k ordinary_length [of p q] show ?thesis by simp
  next
    case False
    then have "length q \<le> length p" by simp
    with assms k ordinary_length [of q p] show ?thesis by simp
  qed
  show "p = q"
  proof (rule nth_equalityI)
    show "length p = length q" by (rule len)
  next
    fix i assume i: "i < length p"
    then have "bcrypt_key p ! i = p ! i" "bcrypt_key q ! i = q ! i"
      using assms(1,2) len by (simp_all add: bcrypt_key_short_nth nth_append)
    with k show "p ! i = q ! i" by simp
  qed
next
  assume "p = q" then show "bcrypt_key p = bcrypt_key q" by simp
qed

text \<open>
  C3 (as amended). Let \<open>u\<close> be the user stored under \<open>name\<close>, registered with the password
  \<open>pw\<close>. Login with \<open>name\<close> and \<open>pw\<close> answers with a token; while the token has not expired
  and the key is the same, \<open>authenticateToken\<close> accepts it and yields an identity with \<open>u\<close>'s
  id and username. Login with another password that is not empty answers 401
  "Invalid password" and no token exactly when bcrypt reads another key from it, and
  answers with a token when it reads the same key. It reads another key from every other
  password when both are shorter than 72 bytes and without a zero byte. Login with an empty
  or absent password answers with the validation error and no token.
\<close>

theorem login_token_identifies_user:
  assumes "findOne name (users s) = Some u" and "pwhash u = bcrypt_hash pw 10 slt"
    and "name \<noteq> []" and "pw \<noteq> []"
  shows "login e \<lparr>b_username = Some name, b_password = Some pw\<rparr> s =
           (Token (jwt_sign (uid u) name (JWT_SECRET s) (now e)), s) \<and>
         (JWT_SECRET later = JWT_SECRET s \<and> now e' div 1000 < now e div 1000 + 3600 \<longrightarrow>
            (\<exists>p. authenticateToken e' later
                    (Some [scheme, jwt_sign (uid u) name (JWT_SECRET s) (now e)]) = Inr p \<and>
                 p_user_id p = uid u \<and> p_username p = uname u)) \<and>
         (other \<noteq> [] \<longrightarrow>
            login e \<lparr>b_username = Some name, b_password = Some other\<rparr> s =
              (if bcrypt_key other = bcrypt_key pw
               then (Token (jwt_sign (uid u) name (JWT_SECRET s) (now e)), s)
               else (Error 401 ''Invalid password'', s))) \<and>
         (length other < 72 \<and> length pw < 72 \<and> CHR 0x00 \<notin> set other \<and> CHR 0x00 \<notin> set pw \<and>
          other \<noteq> pw \<longrightarrow> bcrypt_key other \<noteq> bcrypt_key pw) \<and>
         (toString v = [] \<longrightarrow>
            login e \<lparr>b_username = Some name, b_password = v\<rparr> s =
              (Errors 400 [PasswordRequired], s))"
proof -
  have n: "uname u = name" using findOne_uname [OF assms(1)] by simp
  have l: "login e \<lparr>b_username = Some name, b_password = Some x\<rparr> s =
              (if bcrypt_key x = bcrypt_key pw
               then (Token (jwt_sign (uid u) name (JWT_SECRET s) (now e)), s)
               else (Error 401 ''Invalid password'', s))" if "x \<noteq> []" for x
    using that assms
    by (simp add: login_def validate_login_def notEmpty_def toString_def bcrypt_compare_hash)
  have a: "login e \<lparr>b_username = Some name, b_password = Some pw\<rparr> s =
           (Token (jwt_sign (uid u) name (JWT_SECRET s) (now e)), s)"
    using l [OF assms(4)] by simp
  have b: "\<exists>p. authenticateToken e' later
                    (Some [scheme, jwt_sign (uid u) name (JWT_SECRET s) (now e)]) = Inr p \<and>
                 p_user_id p = uid u \<and> p_username p = uname u"
    if "JWT_SECRET later = JWT_SECRET s \<and> now e' div 1000 < now e div 1000 + 3600"
    using that n by (simp add: authenticateToken_def second_segment_def jwt_sign_def)
  have c: "bcrypt_key other \<noteq> bcrypt_key pw"
    if "length other < 72 \<and> length pw < 72 \<and> CHR 0x00 \<notin> set other \<and> CHR 0x00 \<notin> set pw \<and>
          other \<noteq> pw"
    using that by (simp add: ordinary_passwords)
  have d: "login e \<lparr>b_username = Some name, b_password = v\<rparr> s =
              (Errors 400 [PasswordRequired], s)" if "toString v = []"
    using that assms(3) by (simp add: login_def validate_login_def notEmpty_def toString_def)
  from a b l [of other] c d show ?thesis by blast
qed

theorem login_token_identifies_user_witness:
  "findOne ''alice'' (users ledger) = Some alice \<and>
   login env0 alice_body ledger =
     (Token (jwt_sign 1 ''alice'' ''yourSecretKey'' 1000000), ledger) \<and>
   authenticateToken env0 ledger
     (Some [Text ''Bearer'', jwt_sign 1 ''alice'' ''yourSecretKey'' 1000000]) =
       Inr \<lparr>p_user_id = 1, p_username = ''alice'', p_iat = 1000, p_exp = 4600\<rparr> \<and>
   login env0 \<lparr>b_username = Some ''alice'', b_password = Some ''pass12345''\<rparr> ledger =
     (Error 401 ''Invalid password'', ledger) \<and>
   login env0 \<lparr>b_username = Some ''alice'', b_password = Some []\<rparr> ledger =
     (Errors 400 [PasswordRequired], ledger)"
proof -
  have h: "findOne ''alice'' (users ledger) = Some alice"
      "pwhash alice = bcrypt_hash ''pass1234'' 10 ''s0''"
      "''alice'' \<noteq> []" "''pass1234'' \<noteq> []"
    by (simp_all add: findOne_def ledger_def alice_def bobby_def)
  have a: "authenticateToken env0 ledger
     (Some [Text ''Bearer'', jwt_sign 1 ''alice'' ''yourSecretKey'' 1000000]) =
       Inr \<lparr>p_user_id = 1, p_username = ''alice'', p_iat = 1000, p_exp = 4600\<rparr>"
    by (simp add: authenticateToken_def second_segment_def jwt_sign_def env0_def ledger_def)
  have k: "length ''pass12345'' < 72 \<and> length ''pass1234'' < 72 \<and>
      CHR 0x00 \<notin> set ''pass12345'' \<and> CHR 0x00 \<notin> set ''pass1234'' \<and> ''pass12345'' \<noteq> ''pass1234''"
    by simp
  have f: "uid alice = 1" "JWT_SECRET ledger = ''yourSecretKey''" "now env0 = 1000000"
      "toString (Some []) = []"
    by (simp_all add: alice_def ledger_def env0_def toString_def)
  from login_token_identifies_user [OF h, where e = env0 and later = ledger and
      other = "''pass12345''" and v = "Some []"] h a k f
  show ?thesis
    by (simp add: alice_body_def)
qed

text \<open>
  C3 as stated fails: \<open>carol\<close> registered with 72 letters \<open>a\<close> and a \<open>b\<close>; the password of 72
  letters \<open>a\<close> and a \<open>c\<close> is another password, and login answers it with a token.
\<close>

theorem password_read_to_72_bytes:
  "long_password (CHR ''c'') \<noteq> long_password (CHR ''b'') \<and>
   register env0 (carol_body (CHR ''b'')) online = (Registered 7 ''carol'', with_carol) \<and>
   login env0 (carol_body (CHR ''c'')) with_carol =
     (Token (jwt_sign 7 ''carol'' ''yourSecretKey'' 1000000), with_carol)"
proof -
  have k: "bcrypt_key (long_password c) = replicate 72 (CHR ''a'')" for c
    by (simp add: bcrypt_key_long long_password_def)
  have d: "long_password (CHR ''c'') \<noteq> long_password (CHR ''b'')"
    by (simp add: long_password_def)
  have r: "register env0 (carol_body (CHR ''b'')) online = (Registered 7 ''carol'', with_carol)"
    by (simp add: register_def validate_register_def notEmpty_def isLength_min_def
        toString_def carol_body_def long_password_def findOne_def insertOne_def online_def
        with_carol_def alice_def env0_def Let_def)
  have l: "login env0 (carol_body (CHR ''c'')) with_carol =
     (Token (jwt_sign 7 ''carol'' ''yourSecretKey'' 1000000), with_carol)"
    by (simp add: login_def validate_login_def notEmpty_def toString_def carol_body_def
        findOne_def with_carol_def online_def alice_def env0_def Let_def bcrypt_compare_hash k)
       (simp add: long_password_def)
  from d r l show ?thesis by blast
qed

text \<open>
  C4. A token that login issues carries \<open>iat\<close>, the clock at issuance in whole seconds, and
  \<open>exp = iat + 3600\<close>; presented more than one hour (3600000 ms) after issuance, it is
  refused with status 403 and the message "Invalid token".
\<close>

theorem token_expires_after_one_hour:
  assumes "login e b s = (Token tok, s')"
  shows "(\<exists>p. tok = Jwt p (JWT_SECRET s) \<and> p_iat p = now e div 1000 \<and>
              p_exp p = p_iat p + 3600) \<and>
         (second_segment h = Some tok \<longrightarrow> now e + 3600000 < now e' \<longrightarrow>
            authenticateToken e' s h = Inl (Error 403 ''Invalid token''))"
proof -
  from assms have "\<exists>u::user. tok = jwt_sign (uid u) (toString (b_username b)) (JWT_SECRET s) (now e)"
    by (auto simp: login_def Let_def split: if_splits option.splits)
  then obtain u :: user where tok: "tok = jwt_sign (uid u) (toString (b_username b)) (JWT_SECRET s) (now e)" ..
  have "authenticateToken e' s h = Inl (Error 403 ''Invalid token'')"
    if h: "second_segment h = Some tok" and late: "now e + 3600000 < now e'"
  proof -
    from late have "now e div 1000 + 3600 \<le> now e' div 1000" by linarith
    then show ?thesis using h by (simp add: authenticateToken_def tok jwt_sign_def)
  qed
  then show ?thesis by (simp add: tok jwt_sign_def)
qed

theorem token_expires_after_one_hour_witness:
  "login env0 alice_body ledger =
     (Token (jwt_sign 1 ''alice'' ''yourSecretKey'' 1000000), ledger) \<and>
   authenticateToken (env0\<lparr>now := 4600001\<rparr>) ledger
     (Some [Text ''Bearer'', jwt_sign 1 ''alice'' ''yourSecretKey'' 1000000]) =
       Inl (Error 403 ''Invalid token'')"
proof -
  have l: "login env0 alice_body ledger =
     (Token (jwt_sign 1 ''alice'' ''yourSecretKey'' 1000000), ledger)"
    by (simp add: login_def validate_login_def notEmpty_def toString_def findOne_def
        alice_body_def ledger_def alice_def bobby_def env0_def Let_def bcrypt_compare_hash)
  have s: "second_segment (Some [Text ''Bearer'', jwt_sign 1 ''alice'' ''yourSecretKey'' 1000000])
      = Some (jwt_sign 1 ''alice'' ''yourSecretKey'' 1000000)"
    by (simp add: second_segment_def)
  have t: "now env0 + 3600000 < now (env0\<lparr>now := 4600001\<rparr>)"
    by (simp add: env0_def)
  from token_expires_after_one_hour [OF l] s t l show ?thesis by blast
qed

text \<open>
  C8. For a username and a password that are not empty, login answers 401 "User not found"
  exactly when no stored user has the username, and 401 "Invalid password" exactly when
  the user found under the username has a hash the password does not match; the two
  messages differ.
\<close>

theorem login_failures:
  assumes "name \<noteq> []" and "pw \<noteq> []"
  shows "(fst (login e \<lparr>b_username = Some name, b_password = Some pw\<rparr> s) = Error 401 ''User not found'')
           = (\<forall>u \<in> set (users s). uname u \<noteq> name) \<and>
         (fst (login e \<lparr>b_username = Some name, b_password = Some pw\<rparr> s) = Error 401 ''Invalid password'')
           = (\<exists>u. findOne name (users s) = Some u \<and> \<not> bcrypt_compare pw (pwhash u)) \<and>
         ''User not found'' \<noteq> ''Invalid password''"
  using assms
  by (auto simp: login_def validate_login_def notEmpty_def toString_def Let_def findOne_None [symmetric]
      split: option.splits)

theorem login_failures_witness:
  "fst (login env0 \<lparr>b_username = Some ''carol'', b_password = Some ''pass1234''\<rparr> ledger) =
     Error 401 ''User not found'' \<and>
   fst (login env0 \<lparr>b_username = Some ''alice'', b_password = Some ''hunter22''\<rparr> ledger) =
     Error 401 ''Invalid password''"
proof -
  have a: "\<forall>u \<in> set (users ledger). uname u \<noteq> ''carol''"
    by (simp add: ledger_def alice_def bobby_def)
  have b: "\<exists>u. findOne ''alice'' (users ledger) = Some u \<and> \<not> bcrypt_compare ''hunter22'' (pwhash u)"
    by (simp add: findOne_def ledger_def alice_def bobby_def bcrypt_compare_hash ordinary_passwords)
  have n: "''carol'' \<noteq> []" "''alice'' \<noteq> []" "''pass1234'' \<noteq> []" "''hunter22'' \<noteq> []"
    by simp_all
  from login_failures [OF n(1) n(3), of env0 ledger] login_failures [OF n(2) n(4), of env0 ledger]
    a b show ?thesis by blast
qed

subsection \<open>Amounts sent as strings\<close>

lemma isFloat_gt0_text: "isFloat_gt0 ''12.5''"
  by (simp add: isFloat_gt0_def is_digit_def digits_value_def digit_value_def scaled_def)

lemma text_amount_validates:
  "validate_entry isISO text_amount_body = (if isISO ''2025-01-05'' then [] else [DateMsg])"
  by (simp add: validate_entry_def text_amount_body_def isIn_def toString_def notEmpty_def
      isFloat_gt0_text)

text \<open>
  C9. Where the date validator accepts \<open>2025-01-05\<close>: the body whose amount is the string
  \<open>"12.5"\<close> passes the validators, \<open>POST /expense\<close> stores it with the amount still a string,
  and the summary then reports \<open>total_expense = 0\<close> for its month; the same entry with the
  number 12.5 is summed.
\<close>

theorem text_amount_left_out_of_summary:
  assumes "isISO ''2025-01-05''"
  shows "validate_entry isISO text_amount_body = [] \<and>
    post_expense isISO env0 alice_identity text_amount_body online =
      (Created 7, online\<lparr>expenses := [text_amount_doc]\<rparr>) \<and>
    e_amount text_amount_doc = AStr ''12.5'' \<and>
    (get_summary alice_identity (online\<lparr>expenses := [text_amount_doc]\<rparr>) (Summary result, s')
       \<longrightarrow> result = [\<lparr>period = ''2025-01'', total_income = 0, total_expense = 0\<rparr>]) \<and>
    (get_summary alice_identity
        (online\<lparr>expenses := [text_amount_doc\<lparr>e_amount := ANum 12.5\<rparr>]\<rparr>) (Summary result', s'')
       \<longrightarrow> result' = [\<lparr>period = ''2025-01'', total_income = 0, total_expense = 12.5\<rparr>])"
proof -
  have v: "validate_entry isISO text_amount_body = []"
    using assms by (simp add: text_amount_validates)
  have p: "post_expense isISO env0 alice_identity text_amount_body online =
      (Created 7, online\<lparr>expenses := [text_amount_doc]\<rparr>)"
    unfolding post_expense_def using v
    by (simp add: text_amount_body_def text_amount_doc_def insertOne_def toString_def
        online_def env0_def alice_identity_def)
  have a: "e_amount text_amount_doc = AStr ''12.5''"
    by (simp add: text_amount_doc_def)
  have g: "get_summary alice_identity (online\<lparr>expenses := [text_amount_doc]\<rparr>) (Summary result, s')
       \<longrightarrow> result = [\<lparr>period = ''2025-01'', total_income = 0, total_expense = 0\<rparr>]"
    by (simp add: get_summary_def aggregate_def group_stage_def group_key_def cond_amount_def
        alice_identity_def online_def text_amount_doc_def)
  have g': "get_summary alice_identity
        (online\<lparr>expenses := [text_amount_doc\<lparr>e_amount := ANum 12.5\<rparr>]\<rparr>) (Summary result', s'')
       \<longrightarrow> result' = [\<lparr>period = ''2025-01'', total_income = 0, total_expense = 12.5\<rparr>]"
    by (simp add: get_summary_def aggregate_def group_stage_def group_key_def cond_amount_def
        alice_identity_def online_def text_amount_doc_def)
  from v p a g g' show ?thesis by blast
qed

theorem text_amount_left_out_of_summary_witness:
  "iso_ymd ''2025-01-05'' \<and>
   post_expense iso_ymd env0 alice_identity text_amount_body online =
     (Created 7, online\<lparr>expenses := [text_amount_doc]\<rparr>) \<and>
   get_summary alice_identity (online\<lparr>expenses := [text_amount_doc]\<rparr>)
     (Summary [\<lparr>period = ''2025-01'', total_income = 0, total_expense = 0\<rparr>],
      online\<lparr>expenses := [text_amount_doc]\<rparr>)"
proof -
  have h: "iso_ymd ''2025-01-05''"
    by (simp add: iso_ymd_def is_digit_def)
  have g: "get_summary alice_identity (online\<lparr>expenses := [text_amount_doc]\<rparr>)
     (Summary [\<lparr>period = ''2025-01'', total_income = 0, total_expense = 0\<rparr>],
      online\<lparr>expenses := [text_amount_doc]\<rparr>)"
    by (simp add: get_summary_def aggregate_def group_stage_def group_key_def cond_amount_def
        alice_identity_def online_def text_amount_doc_def)
  from text_amount_left_out_of_summary [where isISO = iso_ymd] h g show ?thesis by blast
qed

text \<open>
  C5 at the input on which the code departs from it: the amount is the string \<open>"12.5"\<close>,
  which is not a number, yet the amount validator raises no error for it under any date
  validator, and with a date validator that accepts the date the entry is stored.
\<close>

theorem text_amount_is_accepted:
  "AmountMsg \<notin> set (validate_entry isISO text_amount_body) \<and>
   b_amount text_amount_body = Some (AStr ''12.5'') \<and>
   post_expense iso_ymd env0 alice_identity text_amount_body online =
     (Created 7, online\<lparr>expenses := [text_amount_doc]\<rparr>)"
proof -
  have "validate_entry iso_ymd text_amount_body = []"
    by (simp add: text_amount_validates iso_ymd_def is_digit_def)
  then have "post_expense iso_ymd env0 alice_identity text_amount_body online =
     (Created 7, online\<lparr>expenses := [text_amount_doc]\<rparr>)"
    unfolding post_expense_def
    by (simp add: text_amount_body_def text_amount_doc_def insertOne_def toString_def
        online_def env0_def alice_identity_def)
  then show ?thesis
    by (simp add: text_amount_validates) (simp add: text_amount_body_def)
qed

end
